theory Spec2Isabelle
  imports Main "HOL-Library.Word" "HOL-Library.Char_ord"
begin

unbundle bit_operations_syntax

section \<open>The EEPROM and the 16-bit helpers of evm.ino\<close>

text \<open>
  The sketch keeps all persistent data in the 512 bytes opened by
  \<^verbatim>\<open>EEPROM.begin(EEPROM_SIZE)\<close>. The EEPROM library is not part of the
  repository. Its \<^verbatim>\<open>read\<close> is modelled as the ESP32 core implements it (an
  address outside the opened size reads 0); its \<^verbatim>\<open>write\<close> is a parameter
  \<open>W\<close> of every function that stores something, so that a cell that does not take
  the written value can be expressed. \<open>EEPROM_write\<close> is the working device: the
  byte is stored, an address outside the opened size is ignored. Every store of the
  sketch is followed by \<^verbatim>\<open>EEPROM.commit()\<close> before the next key is polled, so the
  buffer and the flash are not told apart.
\<close>

type_synonym eeprom = "nat \<Rightarrow> 8 word"

type_synonym writer = "nat \<Rightarrow> 8 word \<Rightarrow> eeprom \<Rightarrow> eeprom"

definition EEPROM_SIZE :: nat where
  "EEPROM_SIZE = 512"

definition EEPROM_read :: "eeprom \<Rightarrow> nat \<Rightarrow> 8 word" where
  "EEPROM_read m a = (if a < EEPROM_SIZE then m a else 0)"

definition EEPROM_write :: writer where
  "EEPROM_write a v m = (if a < EEPROM_SIZE then m(a := v) else m)"

text \<open>
  \<^verbatim>\<open>writeIntToEEPROM(address, value)\<close>: the low byte \<^verbatim>\<open>value & 0xFF\<close> at
  \<open>address\<close>, then \<^verbatim>\<open>value >> 8\<close>, cut to a byte by the \<^verbatim>\<open>uint8_t\<close> parameter
  of \<^verbatim>\<open>EEPROM.write\<close>, at \<open>address + 1\<close>.
\<close>

definition writeIntToEEPROM :: "writer \<Rightarrow> nat \<Rightarrow> int \<Rightarrow> eeprom \<Rightarrow> eeprom" where
  "writeIntToEEPROM W address val m =
     W (address + 1) (word_of_int (drop_bit 8 val))
       (W address (word_of_int (val AND 255)) m)"

text \<open>\<^verbatim>\<open>readIntFromEEPROM(address)\<close>: \<^verbatim>\<open>(upperByte << 8) | lowerByte\<close>.\<close>

definition readIntFromEEPROM :: "eeprom \<Rightarrow> nat \<Rightarrow> int" where
  "readIntFromEEPROM m address =
     (let lowerByte = uint (EEPROM_read m address);
          upperByte = uint (EEPROM_read m (address + 1))
      in push_bit 8 upperByte OR lowerByte)"

text \<open>\<^verbatim>\<open>all_votes_count()\<close>: the loop over the six slots, two bytes each.\<close>

definition all_votes_count :: "eeprom \<Rightarrow> int" where
  "all_votes_count m =
     fold (\<lambda>i vote_t. vote_t + readIntFromEEPROM m (300 + i * 2)) [0..<6] 0"

section \<open>Arithmetic of the C code\<close>

text \<open>
  \<^verbatim>\<open>int\<close> is 32 bits wide on the ESP32. All sums and products of the sketch
  stay far below \<open>2 ^ 31\<close> (six counts below \<open>2 ^ 16\<close>, times 100), except
  the number typed in \<^verbatim>\<open>setMaxVoters\<close>, which grows by a factor of ten with every
  digit: there the two's complement wrap-around of the machine is written out.
  An integer division by zero raises the CPU's exception instead of returning.
\<close>

datatype trap = IntegerDivideByZero

definition int32 :: "int \<Rightarrow> int" where
  "int32 x = signed_take_bit 31 x"

definition c_div :: "int \<Rightarrow> int \<Rightarrow> trap + int" where
  "c_div a b =
     (if b = 0 then Inl IntegerDivideByZero
      else Inr (sgn a * sgn b * (\<bar>a\<bar> div \<bar>b\<bar>)))"

section \<open>What the display shows\<close>

text \<open>
  The TFT calls are recorded as the list of texts put on the screen, oldest first;
  colours, coordinates, tones, the LED shift register and the serial log are left out.
\<close>

datatype winner_line = Winners "int list" | Winner int

datatype label = NOTA | C int

datatype shown =
    Main_Menu
  | Enter_Password
  | Entered nat
  | Access_Granted
  | Incorrect_Password
  | Password_must_be_4_digits
  | Admin_Mode
  | Enable_Candidates
  | Candidate int bool
  | Results_Counts "int list"
  | Results_Votes int int
  | Results_Percent int
  | Results_Winner winner_line
  | Vote_Graph "int list"
  | Set_Max_Voters int
  | Max_Input int
  | Saved
  | EEPROM_Reset
  | Voting_Booth
  | Vote_Recorded
  | Saved_for label
  | Error_Vote_Not_Saved
  | Candidate_Disabled
  | Vote_Box_Is_Full
  | Press_star_to_unlock

section \<open>The state of the sketch\<close>

text \<open>
  Every menu function of the sketch draws its screen and then polls the keypad in a
  \<^verbatim>\<open>while\<close> loop. \<open>screen\<close> says in which of these loops the program is
  waiting, together with the local variables of that loop: the function pointer and
  \<^verbatim>\<open>enteredPassword\<close> in \<^verbatim>\<open>showPasswordBox\<close>, \<^verbatim>\<open>tempMaxVoters\<close> in
  \<^verbatim>\<open>setMaxVoters\<close>, \<^verbatim>\<open>inputLocked\<close> in \<^verbatim>\<open>showVotingMenu\<close>.

  The menus call each other, so the callers stay on the C stack. After its callee
  returns, a caller either has \<^verbatim>\<open>done = true\<close> (or a \<^verbatim>\<open>return\<close>) and leaves
  too, or it is \<^verbatim>\<open>showAdminMenu\<close> inside its loop, which goes on polling. \<open>stack\<close>
  holds one frame per pending caller, innermost first; below the last frame is
  \<^verbatim>\<open>loop()\<close>.
\<close>

datatype callback = Cb_showAdminMenu | Cb_showVotingMenu | Cb_resetEEPROM

datatype screen =
    In_loop
  | In_showResetMenu
  | In_showPasswordBox callback string
  | In_showAdminMenu
  | In_enableCandidates
  | In_showResults
  | In_showGraph
  | In_setMaxVoters int
  | In_showVotingMenu bool
  | Halted trap

datatype frame = Resume_showAdminMenu | Leave

record evm =
  eeprom :: eeprom
  votes :: "int list"
  enabledCandidates :: "bool list"
  maxVoters :: int
  screen :: screen
  stack :: "frame list"
  tft :: "shown list"

datatype event = Key char | PowerOn

definition default_maxVoters :: int where
  "default_maxVoters = 100"

definition correctPassword :: string where
  "correctPassword = ''1101''"

definition say :: "shown list \<Rightarrow> evm \<Rightarrow> evm" where
  "say xs st = st\<lparr>tft := tft st @ xs\<rparr>"

definition push :: "frame \<Rightarrow> evm \<Rightarrow> evm" where
  "push f st = st\<lparr>stack := f # stack st\<rparr>"

text \<open>A menu function returns: the frames that only leave are popped with it.\<close>

definition return_from :: "evm \<Rightarrow> evm" where
  "return_from st =
     (case dropWhile (\<lambda>f. f = Leave) (stack st) of
        [] \<Rightarrow> st\<lparr>screen := In_loop, stack := []\<rparr>
      | f # fs \<Rightarrow> st\<lparr>screen := In_showAdminMenu, stack := fs\<rparr>)"

section \<open>Entering a menu: the code before its polling loop\<close>

definition showResetMenu :: "evm \<Rightarrow> evm" where
  "showResetMenu st = (say [Main_Menu] st)\<lparr>screen := In_showResetMenu\<rparr>"

definition showPasswordBox :: "callback \<Rightarrow> evm \<Rightarrow> evm" where
  "showPasswordBox callbackFunction st =
     (say [Enter_Password] st)\<lparr>screen := In_showPasswordBox callbackFunction []\<rparr>"

definition showAdminMenu :: "evm \<Rightarrow> evm" where
  "showAdminMenu st = (say [Admin_Mode] st)\<lparr>screen := In_showAdminMenu\<rparr>"

definition enableCandidates :: "evm \<Rightarrow> evm" where
  "enableCandidates st = (say [Enable_Candidates] st)\<lparr>screen := In_enableCandidates\<rparr>"

definition showVotingMenu :: "evm \<Rightarrow> evm" where
  "showVotingMenu st = (say [Voting_Booth] st)\<lparr>screen := In_showVotingMenu False\<rparr>"

definition setMaxVoters :: "evm \<Rightarrow> evm" where
  "setMaxVoters st =
     (let mvx = readIntFromEEPROM (eeprom st) 200
      in (say [Set_Max_Voters mvx] st)\<lparr>screen := In_setMaxVoters 0\<rparr>)"

text \<open>
  \<^verbatim>\<open>showResults\<close>, lines 332 to 353: the maximum, the first slot that reaches it
  (\<open>- 1\<close> when no count is above 0), the total, and the tie flag.
\<close>

definition results_scan :: "eeprom \<Rightarrow> int \<times> int \<times> int" where
  "results_scan m =
     fold (\<lambda>i (maxVotes, winner, totalVotesCast).
             let candidateVotes = readIntFromEEPROM m (300 + i * 2);
                 totalVotesCast = totalVotesCast + candidateVotes
             in if candidateVotes > maxVotes then (candidateVotes, int i, totalVotesCast)
                else (maxVotes, winner, totalVotesCast))
          [0..<6] (0, - 1, 0)"

definition results_tie :: "eeprom \<Rightarrow> int \<Rightarrow> int \<Rightarrow> bool" where
  "results_tie m maxVotes winner =
     fold (\<lambda>i tie. if readIntFromEEPROM m (300 + i * 2) = maxVotes \<and> int i \<noteq> winner
                    then True else tie)
          [0..<6] False"

text \<open>Lines 396 to 410: the numbers printed after "Winners: C" or "Winner: C".\<close>

definition results_winner_line :: "eeprom \<Rightarrow> winner_line" where
  "results_winner_line m =
     (let scan = results_scan m;
          maxVotes = fst scan;
          winner = fst (snd scan)
      in if results_tie m maxVotes winner
         then Winners (fold (\<lambda>i printed.
                               if readIntFromEEPROM m (300 + i * 2) = maxVotes
                               then printed @ [int i + 1] else printed)
                            [0..<6] [])
         else Winner (winner + 1))"

text \<open>
  The whole of \<^verbatim>\<open>showResults\<close> up to its polling loop. The percentage is printed
  after the counts and the totals and before the winner; its division is not guarded.
\<close>

definition showResults :: "evm \<Rightarrow> evm" where
  "showResults st =
     (let m = eeprom st;
          totalVotes = readIntFromEEPROM m 200;
          totalVotesCast = snd (snd (results_scan m));
          st1 = say [Results_Counts (map (\<lambda>i. readIntFromEEPROM m (300 + i * 2)) [0..<6]),
                     Results_Votes totalVotesCast totalVotes] st
      in case c_div (totalVotesCast * 100) totalVotes of
           Inl t \<Rightarrow> st1\<lparr>screen := Halted t\<rparr>
         | Inr percent \<Rightarrow>
             (say [Results_Percent percent, Results_Winner (results_winner_line m)] st1)
               \<lparr>screen := In_showResults\<rparr>)"

text \<open>\<^verbatim>\<open>showGraph(80)\<close>: the heights of the six bars.\<close>

definition showGraph :: "int \<Rightarrow> evm \<Rightarrow> evm" where
  "showGraph graphBaseY st =
     (let m = eeprom st;
          maxHeight = graphBaseY - 10;
          maxVotes = fold (\<lambda>i maxVotes.
                             let candidateVotes = readIntFromEEPROM m (300 + i * 2)
                             in if candidateVotes > maxVotes then candidateVotes else maxVotes)
                          [0..<6] 0;
          bars = map (\<lambda>i. let candidateVotes = readIntFromEEPROM m (300 + i * 2)
                            in if maxVotes = 0 then 0
                               else candidateVotes * maxHeight div maxVotes)
                     [0..<6]
      in (say [Vote_Graph bars] st)\<lparr>screen := In_showGraph\<rparr>)"

text \<open>
  \<^verbatim>\<open>resetEEPROM\<close> has no loop of its own: it stores the defaults and calls
  \<^verbatim>\<open>showAdminMenu\<close>. It leaves the arrays \<^verbatim>\<open>enabledCandidates\<close> and the variable
  \<^verbatim>\<open>maxVoters\<close> in memory as they are.
\<close>

definition resetEEPROM :: "writer \<Rightarrow> evm \<Rightarrow> evm" where
  "resetEEPROM W st =
     (let st1 = fold (\<lambda>i s. s\<lparr>eeprom := writeIntToEEPROM W (300 + i * 2) 0
                                            (W (i + 100) 1 (eeprom s)),
                                votes := (votes s)[i := 0]\<rparr>)
                     [0..<6] st;
          st2 = st1\<lparr>eeprom := writeIntToEEPROM W 200 default_maxVoters (eeprom st1)\<rparr>
      in showAdminMenu (push Leave (say [EEPROM_Reset] st2)))"

definition invoke :: "writer \<Rightarrow> callback \<Rightarrow> evm \<Rightarrow> evm" where
  "invoke W callbackFunction st =
     (case callbackFunction of
        Cb_showAdminMenu \<Rightarrow> showAdminMenu st
      | Cb_showVotingMenu \<Rightarrow> showVotingMenu st
      | Cb_resetEEPROM \<Rightarrow> resetEEPROM W st)"

text \<open>
  The function \<^verbatim>\<open>setup()\<close> of the sketch (the name is reserved in Isabelle),
  lines 104 to 126, on the EEPROM contents found at power-on. The
  globals start from their initialisers and are then loaded; \<^verbatim>\<open>votes[i]\<close> is
  loaded with the single byte \<^verbatim>\<open>EEPROM.read(i + 300)\<close>.
\<close>

definition setup_ino :: "eeprom \<Rightarrow> evm" where
  "setup_ino m =
     (let st0 = \<lparr>eeprom = m, votes = replicate 6 0, enabledCandidates = replicate 6 True,
                 maxVoters = 100, screen = In_loop, stack = [], tft = []\<rparr>;
          st1 = st0\<lparr>maxVoters := readIntFromEEPROM m 200\<rparr>;
          st2 = fold (\<lambda>i s. s\<lparr>enabledCandidates :=
                                  (enabledCandidates s)[i := EEPROM_read m (i + 100) \<noteq> 0],
                                votes := (votes s)[i := uint (EEPROM_read m (i + 300))]\<rparr>)
                     [0..<6] st1;
          st3 = st2\<lparr>maxVoters := readIntFromEEPROM m 200\<rparr>
      in showResetMenu st3)"

section \<open>One pass of a polling loop with the key it got\<close>

text \<open>
  \<^verbatim>\<open>getDebouncedKey()\<close> returns the pressed key or \<^verbatim>\<open>'\0'\<close>. Each function below
  is the body of one \<^verbatim>\<open>while\<close> loop for one returned key.
\<close>

definition loop_key :: "evm \<Rightarrow> char \<Rightarrow> evm" where
  "loop_key st key =
     (if key \<noteq> CHR 0x00 then
        if key = CHR ''1'' then showPasswordBox Cb_showAdminMenu (push Leave st)
        else if key = CHR ''2'' then showPasswordBox Cb_showVotingMenu (push Leave st)
        else if key = CHR ''*'' then showResetMenu (push Leave st)
        else st
      else st)"

definition showResetMenu_key :: "evm \<Rightarrow> char \<Rightarrow> evm" where
  "showResetMenu_key st key =
     (if key = CHR ''1'' then showPasswordBox Cb_showAdminMenu (push Leave st)
      else if key = CHR ''2'' then showPasswordBox Cb_showVotingMenu (push Leave st)
      else if key = CHR ''*'' then return_from st
      else st)"

definition showPasswordBox_key ::
  "writer \<Rightarrow> callback \<Rightarrow> string \<Rightarrow> evm \<Rightarrow> char \<Rightarrow> evm" where
  "showPasswordBox_key W callbackFunction enteredPassword st key =
     (if key \<noteq> CHR 0x00 then
        if key = CHR ''*'' then
          if length enteredPassword = 4 then
            if enteredPassword = correctPassword
            then invoke W callbackFunction (push Leave (say [Access_Granted] st))
            else (say [Incorrect_Password] st)
                   \<lparr>screen := In_showPasswordBox callbackFunction []\<rparr>
          else (say [Password_must_be_4_digits] st)
                 \<lparr>screen := In_showPasswordBox callbackFunction []\<rparr>
        else if key = CHR ''#'' then
          (say [Enter_Password] st)\<lparr>screen := In_showPasswordBox callbackFunction []\<rparr>
        else if length enteredPassword < 8 \<and> CHR ''0'' \<le> key \<and> key \<le> CHR ''6'' then
          (say [Entered (length (enteredPassword @ [key]))] st)
            \<lparr>screen := In_showPasswordBox callbackFunction (enteredPassword @ [key])\<rparr>
        else st
      else st)"

definition showAdminMenu_key :: "evm \<Rightarrow> char \<Rightarrow> evm" where
  "showAdminMenu_key st key =
     (if key = CHR ''1'' then enableCandidates (push Resume_showAdminMenu st)
      else if key = CHR ''2'' then showResults (push Resume_showAdminMenu st)
      else if key = CHR ''3'' then setMaxVoters (push Resume_showAdminMenu st)
      else if key = CHR ''4'' then showPasswordBox Cb_resetEEPROM (push Resume_showAdminMenu st)
      else if key = CHR ''#'' then showResetMenu (push Leave st)
      else st)"

definition enableCandidates_key :: "writer \<Rightarrow> evm \<Rightarrow> char \<Rightarrow> evm" where
  "enableCandidates_key W st key =
     (if CHR ''1'' \<le> key \<and> key \<le> CHR ''6'' then
        let candidateIndex = of_char key - of_char CHR ''1'';
            toggled = \<not> enabledCandidates st ! candidateIndex
        in say [Enable_Candidates, Candidate (int candidateIndex + 1) toggled]
             (st\<lparr>enabledCandidates := (enabledCandidates st)[candidateIndex := toggled],
                 eeprom := W (100 + candidateIndex) (if toggled then 1 else 0) (eeprom st)\<rparr>)
      else if key = CHR ''#'' then showAdminMenu (push Leave st)
      else st)"

definition showResults_key :: "evm \<Rightarrow> char \<Rightarrow> evm" where
  "showResults_key st key =
     (if key = CHR ''*'' then showGraph 80 (push Leave st)
      else if key = CHR ''#'' then return_from st
      else st)"

definition showGraph_key :: "evm \<Rightarrow> char \<Rightarrow> evm" where
  "showGraph_key st key =
     (if key = CHR ''#'' then showResults (push Leave st) else st)"

definition setMaxVoters_key :: "writer \<Rightarrow> int \<Rightarrow> evm \<Rightarrow> char \<Rightarrow> evm" where
  "setMaxVoters_key W tempMaxVoters st key =
     (if CHR ''0'' \<le> key \<and> key \<le> CHR ''9'' then
        let tempMaxVoters = int32 (tempMaxVoters * 10 + (of_char key - of_char CHR ''0''))
        in (say [Max_Input (if tempMaxVoters > 0 \<and> tempMaxVoters \<le> 65535
                            then tempMaxVoters else 65535)] st)
             \<lparr>screen := In_setMaxVoters tempMaxVoters\<rparr>
      else if key = CHR ''#'' then
        let maxVoters = (if tempMaxVoters \<ge> 1 \<and> tempMaxVoters \<le> 65535
                         then tempMaxVoters else 65535)
        in showAdminMenu (push Leave (say [Saved]
             (st\<lparr>maxVoters := maxVoters,
                 eeprom := writeIntToEEPROM W 200 maxVoters (eeprom st)\<rparr>)))
      else st)"

definition showVotingMenu_key :: "writer \<Rightarrow> bool \<Rightarrow> evm \<Rightarrow> char \<Rightarrow> evm" where
  "showVotingMenu_key W inputLocked st key =
     (let avc = all_votes_count (eeprom st);
          mvc = readIntFromEEPROM (eeprom st) 200
      in if CHR ''1'' \<le> key \<and> key \<le> CHR ''6'' \<and> \<not> inputLocked then
           let candidateIndex = of_char key - of_char CHR ''1'';
               candidateAddress = 300 + candidateIndex * 2
           in if enabledCandidates st ! candidateIndex \<and> avc < mvc then
                let currentVote = readIntFromEEPROM (eeprom st) candidateAddress + 1;
                    st1 = st\<lparr>eeprom := writeIntToEEPROM W candidateAddress currentVote
                                           (eeprom st)\<rparr>;
                    savedValue = readIntFromEEPROM (eeprom st1) candidateAddress
                in if savedValue \<noteq> currentVote then say [Error_Vote_Not_Saved] st1
                   else (say [Vote_Recorded,
                              Saved_for (if candidateIndex + 1 = 6 then NOTA
                                         else C (int candidateIndex + 1)),
                              Voting_Booth, Press_star_to_unlock] st1)
                          \<lparr>screen := In_showVotingMenu True\<rparr>
              else say [if \<not> enabledCandidates st ! candidateIndex
                        then Candidate_Disabled else Vote_Box_Is_Full, Voting_Booth] st
         else if key = CHR ''*'' then
           (say [Voting_Booth, Press_star_to_unlock] st)\<lparr>screen := In_showVotingMenu False\<rparr>
         else st)"

section \<open>The machine\<close>

text \<open>
  An event is a key returned by \<^verbatim>\<open>getDebouncedKey()\<close> or the board being powered
  on again (the sketch itself asks for it after \<^verbatim>\<open>enableCandidates\<close>, and nothing
  else leaves the voting booth). After the CPU exception the sketch does not run on;
  the restart of the board is the same event.
\<close>

definition step :: "writer \<Rightarrow> evm \<Rightarrow> event \<Rightarrow> evm" where
  "step W st e =
     (case e of
        PowerOn \<Rightarrow> setup_ino (eeprom st)
      | Key key \<Rightarrow>
          (case screen st of
             In_loop \<Rightarrow> loop_key st key
           | In_showResetMenu \<Rightarrow> showResetMenu_key st key
           | In_showPasswordBox callbackFunction enteredPassword \<Rightarrow>
               showPasswordBox_key W callbackFunction enteredPassword st key
           | In_showAdminMenu \<Rightarrow> showAdminMenu_key st key
           | In_enableCandidates \<Rightarrow> enableCandidates_key W st key
           | In_showResults \<Rightarrow> showResults_key st key
           | In_showGraph \<Rightarrow> showGraph_key st key
           | In_setMaxVoters tempMaxVoters \<Rightarrow> setMaxVoters_key W tempMaxVoters st key
           | In_showVotingMenu inputLocked \<Rightarrow> showVotingMenu_key W inputLocked st key
           | Halted t \<Rightarrow> st))"

fun run :: "writer \<Rightarrow> evm \<Rightarrow> event list \<Rightarrow> evm" where
  "run W st [] = st"
| "run W st (e # es) = run W (step W st e) es"

section \<open>Concrete machines for the examples\<close>

text \<open>
  \<open>zeroed\<close> is an EEPROM that holds 0 everywhere. \<open>dead_write\<close> is a device whose
  cells keep their old contents whatever is written. \<open>admin_reset_keys\<close> enters the
  admin menu with the password, resets the EEPROM behind the second password and powers
  the board on again, which loads the defaults into memory. \<open>booth_open\<close> is the
  machine after that in the voting booth, unlocked; \<open>booth_locked\<close> is the booth
  after one vote for the first candidate.
\<close>

definition zeroed :: eeprom where
  "zeroed = (\<lambda>a. 0)"

definition dead_write :: writer where
  "dead_write a v m = m"

definition admin_reset_keys :: "event list" where
  "admin_reset_keys = map Key ''11101*41101*'' @ [PowerOn]"

definition booth_open :: evm where
  "booth_open = run EEPROM_write (setup_ino zeroed) (admin_reset_keys @ map Key ''21101*'')"

definition booth_locked :: evm where
  "booth_locked = step EEPROM_write booth_open (Key CHR ''1'')"

text \<open>
  \<open>one_vote_keys\<close>: after the reset, one vote for the second candidate, then power
  on. \<open>cap_lowered_keys\<close>: after the reset, one vote each for the first and the second
  candidate, power on, and in the admin menu the cap set to 1.
\<close>

definition cap_lowered_keys :: "event list" where
  "cap_lowered_keys =
     admin_reset_keys @ map Key ''21101*1*2'' @ [PowerOn] @ map Key ''11101*31#''"

definition one_vote_keys :: "event list" where
  "one_vote_keys = admin_reset_keys @ map Key ''21101*2'' @ [PowerOn]"

section \<open>The winner set as the specification words it\<close>

text \<open>
  The specification's \<open>perCandidateCounts\<close> and \<open>winnerSet\<close> (all indices that reach
  the maximum of the six counts), to be compared with what \<^verbatim>\<open>showResults\<close> prints:
  \<open>printed_candidates\<close> are the candidate numbers on the winner line, \<open>reports_tie\<close>
  says whether the line is the "Winners:" one. \<open>cap_and_counts_stored cap cs\<close> is
  the zeroed EEPROM with the cap and the six counts \<open>cs\<close> written into their slots;
  \<open>results_shown cap cs\<close> is the machine powered on with it and taken with the
  password through the admin menu to "Show Results".
\<close>

definition perCandidateCounts :: "eeprom \<Rightarrow> int list" where
  "perCandidateCounts m = map (\<lambda>i. readIntFromEEPROM m (300 + i * 2)) [0..<6]"

definition winnerSet :: "eeprom \<Rightarrow> nat set" where
  "winnerSet m =
     set (filter (\<lambda>i. perCandidateCounts m ! i = Max (set (perCandidateCounts m))) [0..<6])"

fun printed_candidates :: "winner_line \<Rightarrow> int list" where
  "printed_candidates (Winners ps) = ps"
| "printed_candidates (Winner p) = [p]"

fun reports_tie :: "winner_line \<Rightarrow> bool" where
  "reports_tie (Winners ps) = True"
| "reports_tie (Winner p) = False"

definition cap_and_counts_stored :: "int \<Rightarrow> int list \<Rightarrow> eeprom" where
  "cap_and_counts_stored cap cs =
     fold (\<lambda>i m. writeIntToEEPROM EEPROM_write (300 + i * 2) (cs ! i) m) [0..<6]
       (writeIntToEEPROM EEPROM_write 200 cap zeroed)"

definition results_shown :: "int \<Rightarrow> int list \<Rightarrow> evm" where
  "results_shown cap cs =
     run EEPROM_write (setup_ino (cap_and_counts_stored cap cs)) (map Key ''11101*2'')"

section \<open>The cap invariant\<close>

text \<open>
  \<open>within_cap\<close> is the specification's invariant on the stored data:
  \<open>0 \<le> totalVotesCast \<le> maxVoters\<close>. \<open>cap_not_below_votes st e\<close> says of one event
  that, if it is the \<^verbatim>\<open>'#'\<close> that commits the number typed in \<^verbatim>\<open>setMaxVoters\<close>,
  the cap it stores is not below the votes already stored; \<open>caps_not_below_votes\<close>
  says so of every event of a run. \<open>cap_raised_keys\<close> is such a run: a reset, two
  votes, power on, and the cap set to 5.
\<close>

definition within_cap :: "eeprom \<Rightarrow> bool" where
  "within_cap m = (0 \<le> all_votes_count m \<and> all_votes_count m \<le> readIntFromEEPROM m 200)"

definition cap_not_below_votes :: "evm \<Rightarrow> event \<Rightarrow> bool" where
  "cap_not_below_votes st e =
     (case e of
        PowerOn \<Rightarrow> True
      | Key key \<Rightarrow>
          (case screen st of
             In_setMaxVoters tempMaxVoters \<Rightarrow>
               key \<noteq> CHR ''#'' \<or>
               all_votes_count (eeprom st)
                 \<le> (if tempMaxVoters \<ge> 1 \<and> tempMaxVoters \<le> 65535 then tempMaxVoters else 65535)
           | _ \<Rightarrow> True))"

fun caps_not_below_votes :: "evm \<Rightarrow> event list \<Rightarrow> bool" where
  "caps_not_below_votes st [] = True"
| "caps_not_below_votes st (e # es) =
     (cap_not_below_votes st e \<and> caps_not_below_votes (step EEPROM_write st e) es)"

definition cap_raised_keys :: "event list" where
  "cap_raised_keys =
     admin_reset_keys @ map Key ''21101*1*2'' @ [PowerOn] @ map Key ''11101*35#''"

section \<open>Basic facts about the 16-bit helpers\<close>

lemma upt_6: "[0..<6] = [0, 1, 2, 3, 4, 5::nat]"
  by (simp add: upt_conv_Cons)

lemma readIntFromEEPROM_plus:
  "readIntFromEEPROM m a = 256 * uint (EEPROM_read m (a + 1)) + uint (EEPROM_read m a)"
proof -
  have "push_bit 8 (uint (EEPROM_read m (a + 1))) OR uint (EEPROM_read m a)
        = push_bit 8 (uint (EEPROM_read m (a + 1))) + uint (EEPROM_read m a)"
    by (rule disjunctive_add [symmetric])
       (auto simp: bit_push_bit_iff bit_uint_iff dest: bit_imp_le_length)
  then show ?thesis
    by (simp add: readIntFromEEPROM_def Let_def push_bit_eq_mult)
qed

lemma readIntFromEEPROM_range:
  "0 \<le> readIntFromEEPROM m a \<and> readIntFromEEPROM m a \<le> 65535"
proof -
  have "uint (EEPROM_read m (a + 1)) < 256" "uint (EEPROM_read m a) < 256"
    using uint_bounded [of "EEPROM_read m (a + 1)"] uint_bounded [of "EEPROM_read m a"]
    by simp_all
  then show ?thesis
    unfolding readIntFromEEPROM_plus by simp
qed

lemma all_votes_count_sum:
  "all_votes_count m =
     readIntFromEEPROM m 300 + readIntFromEEPROM m 302 + readIntFromEEPROM m 304
     + readIntFromEEPROM m 306 + readIntFromEEPROM m 308 + readIntFromEEPROM m 310"
  by (simp add: all_votes_count_def upt_6)

section \<open>Keys, bytes and sums\<close>

lemma key_1_to_6:
  assumes "CHR ''1'' \<le> k" "k \<le> CHR ''6''"
  shows "k \<in> {CHR ''1'', CHR ''2'', CHR ''3'', CHR ''4'', CHR ''5'', CHR ''6''}"
proof -
  from assms have "(49::nat) \<le> of_char k" "of_char k \<le> (54::nat)"
    by (simp_all add: less_eq_char_def)
  then have "of_char k \<in> {49, 50, 51, 52, 53, 54::nat}" by auto
  then have "of_char k \<in> {of_char CHR ''1'', of_char CHR ''2'', of_char CHR ''3'',
      of_char CHR ''4'', of_char CHR ''5'', of_char CHR ''6'' :: nat}" by simp
  then show ?thesis unfolding insert_iff of_char_eq_iff by simp
qed

lemma candidateIndex_less:
  assumes "CHR ''1'' \<le> k" "k \<le> CHR ''6''"
  shows "of_char k - of_char CHR ''1'' < (6::nat)"
  using assms by (simp add: less_eq_char_def)

lemma byte_split:
  assumes "0 \<le> v" "v \<le> 65535"
  shows "256 * uint (word_of_int (drop_bit 8 v) :: 8 word) + uint (word_of_int (v AND 255) :: 8 word) = v"
proof -
  have m: "(255::int) = mask 8" by (simp add: mask_eq_exp_minus_1)
  have lo: "uint (word_of_int (v AND 255) :: 8 word) = v mod 256"
    unfolding m by (simp add: uint_word_of_int take_bit_eq_mod and_mask_mod_2p flip: take_bit_eq_mask)
  have "v div 256 < 256" "0 \<le> v div 256" using assms by auto
  then have hi: "uint (word_of_int (drop_bit 8 v) :: 8 word) = v div 256"
    by (simp add: uint_word_of_int drop_bit_eq_div)
  show ?thesis unfolding lo hi by simp
qed

lemma read_write_same:
  assumes "a + 1 < EEPROM_SIZE" "0 \<le> v" "v \<le> 65535"
  shows "readIntFromEEPROM (writeIntToEEPROM EEPROM_write a v m) a = v"
  using assms byte_split [OF assms(2,3)]
  by (simp add: readIntFromEEPROM_plus writeIntToEEPROM_def EEPROM_write_def EEPROM_read_def)

lemma write_other_byte:
  assumes "b \<noteq> a" "b \<noteq> a + 1"
  shows "writeIntToEEPROM EEPROM_write a v m b = m b"
  using assms by (simp add: writeIntToEEPROM_def EEPROM_write_def)

lemma read_write_other:
  assumes "b \<noteq> a" "b \<noteq> a + 1" "b + 1 \<noteq> a"
  shows "readIntFromEEPROM (writeIntToEEPROM EEPROM_write a v m) b = readIntFromEEPROM m b"
  using assms by (simp add: readIntFromEEPROM_def EEPROM_read_def write_other_byte)

lemma count_le_all_votes_count:
  "i < 6 \<Longrightarrow> readIntFromEEPROM m (300 + i * 2) \<le> all_votes_count m"
proof -
  assume "i < 6"
  then have "i \<in> {0, 1, 2, 3, 4, 5}" by auto
  then show ?thesis
    using readIntFromEEPROM_range [of m 300] readIntFromEEPROM_range [of m 302]
      readIntFromEEPROM_range [of m 304] readIntFromEEPROM_range [of m 306]
      readIntFromEEPROM_range [of m 308] readIntFromEEPROM_range [of m 310]
    by (auto simp: all_votes_count_sum)
qed

lemma all_votes_count_write:
  assumes "i < 6" "0 \<le> v" "v \<le> 65535"
  shows "all_votes_count (writeIntToEEPROM EEPROM_write (300 + i * 2) v m)
         = all_votes_count m - readIntFromEEPROM m (300 + i * 2) + v"
proof -
  from assms(1) have "i \<in> {0, 1, 2, 3, 4, 5}" by auto
  then show ?thesis
    using assms(2,3)
    by (auto simp: all_votes_count_sum read_write_same read_write_other EEPROM_SIZE_def)
qed


section \<open>Casting a vote\<close>

lemma vote_step:
  assumes "screen st = In_showVotingMenu False"
    and "CHR ''1'' \<le> key" "key \<le> CHR ''6''"
    and "i = of_char key - of_char CHR ''1''"
    and "enabledCandidates st ! i"
    and "all_votes_count (eeprom st) < readIntFromEEPROM (eeprom st) 200"
  shows "step W st (Key key) =
    (let currentVote = readIntFromEEPROM (eeprom st) (300 + i * 2) + 1;
         st1 = st\<lparr>eeprom := writeIntToEEPROM W (300 + i * 2) currentVote (eeprom st)\<rparr>
     in if readIntFromEEPROM (eeprom st1) (300 + i * 2) \<noteq> currentVote
        then say [Error_Vote_Not_Saved] st1
        else (say [Vote_Recorded, Saved_for (if i = 5 then NOTA else C (int i + 1)),
                   Voting_Booth, Press_star_to_unlock] st1)
               \<lparr>screen := In_showVotingMenu True\<rparr>)"
  using assms by (simp add: step_def showVotingMenu_key_def Let_def)

lemma vote_verified_on_working_device:
  assumes "i < 6"
    and "all_votes_count m < readIntFromEEPROM m 200"
  shows "readIntFromEEPROM (writeIntToEEPROM EEPROM_write (300 + i * 2)
           (readIntFromEEPROM m (300 + i * 2) + 1) m) (300 + i * 2)
         = readIntFromEEPROM m (300 + i * 2) + 1"
proof -
  have "readIntFromEEPROM m (300 + i * 2) \<le> all_votes_count m"
    using assms(1) by (rule count_le_all_votes_count)
  moreover have "readIntFromEEPROM m 200 \<le> 65535" "0 \<le> readIntFromEEPROM m (300 + i * 2)"
    using readIntFromEEPROM_range by blast+
  ultimately have "readIntFromEEPROM m (300 + i * 2) + 1 \<le> 65535"
    "0 \<le> readIntFromEEPROM m (300 + i * 2) + 1"
    using assms(2) by linarith+
  moreover have "300 + i * 2 + 1 < EEPROM_SIZE"
    using assms(1) by (simp add: EEPROM_SIZE_def)
  ultimately show ?thesis by (simp add: read_write_same)
qed

text \<open>
  C3. In the unlocked booth, for a digit 1 to 6 whose slot \<open>i\<close> is enabled in memory, and
  with fewer votes stored than the stored cap: the key reads the count of slot \<open>i\<close>, adds
  one and writes it back at \<open>300 + 2 * i\<close> (on any device); if the count read back
  afterwards is the incremented one, the confirmation is shown, the booth is locked and
  the program stays in the booth; and on the working device the count read back is
  exactly one more than before.
\<close>

theorem cast_vote_success:
  assumes "screen st = In_showVotingMenu False"
    and "CHR ''1'' \<le> key" "key \<le> CHR ''6''"
    and "i = of_char key - of_char CHR ''1''"
    and "enabledCandidates st ! i"
    and "all_votes_count (eeprom st) < readIntFromEEPROM (eeprom st) 200"
  shows "eeprom (step W st (Key key)) =
           writeIntToEEPROM W (300 + i * 2) (readIntFromEEPROM (eeprom st) (300 + i * 2) + 1)
             (eeprom st)
    \<and> (readIntFromEEPROM (eeprom (step W st (Key key))) (300 + i * 2)
          = readIntFromEEPROM (eeprom st) (300 + i * 2) + 1 \<longrightarrow>
        tft (step W st (Key key)) =
          tft st @ [Vote_Recorded, Saved_for (if i = 5 then NOTA else C (int i + 1)),
                    Voting_Booth, Press_star_to_unlock]
        \<and> screen (step W st (Key key)) = In_showVotingMenu True)
    \<and> readIntFromEEPROM (eeprom (step EEPROM_write st (Key key))) (300 + i * 2)
          = readIntFromEEPROM (eeprom st) (300 + i * 2) + 1"
proof -
  have i: "i < 6" using candidateIndex_less [OF assms(2,3)] assms(4) by simp
  have e: "eeprom (step W st (Key key)) =
           writeIntToEEPROM W (300 + i * 2) (readIntFromEEPROM (eeprom st) (300 + i * 2) + 1)
             (eeprom st)" for W
    unfolding vote_step [OF assms] by (simp add: Let_def say_def)
  have "readIntFromEEPROM (eeprom (step W st (Key key))) (300 + i * 2)
          = readIntFromEEPROM (eeprom st) (300 + i * 2) + 1 \<Longrightarrow>
        tft (step W st (Key key)) =
          tft st @ [Vote_Recorded, Saved_for (if i = 5 then NOTA else C (int i + 1)),
                    Voting_Booth, Press_star_to_unlock]
        \<and> screen (step W st (Key key)) = In_showVotingMenu True"
    unfolding e unfolding vote_step [OF assms] by (simp add: Let_def say_def)
  moreover have "readIntFromEEPROM (eeprom (step EEPROM_write st (Key key))) (300 + i * 2)
          = readIntFromEEPROM (eeprom st) (300 + i * 2) + 1"
    unfolding e by (rule vote_verified_on_working_device [OF i assms(6)])
  ultimately show ?thesis using e by blast
qed

theorem cast_vote_success_witness:
  "screen booth_open = In_showVotingMenu False
   \<and> enabledCandidates booth_open ! 0
   \<and> all_votes_count (eeprom booth_open) < readIntFromEEPROM (eeprom booth_open) 200
   \<and> readIntFromEEPROM (eeprom booth_open) 300 = 0
   \<and> readIntFromEEPROM (eeprom (step EEPROM_write booth_open (Key CHR ''1''))) 300 = 1
   \<and> tft (step EEPROM_write booth_open (Key CHR ''1'')) =
       tft booth_open @ [Vote_Recorded, Saved_for (C 1), Voting_Booth, Press_star_to_unlock]
   \<and> screen (step EEPROM_write booth_open (Key CHR ''1'')) = In_showVotingMenu True"
proof -
  have h1: "screen booth_open = In_showVotingMenu False" by code_simp
  have h2: "CHR ''1'' \<le> CHR ''1''" "CHR ''1'' \<le> CHR ''6''" by (simp_all add: less_eq_char_def)
  have h4: "(0::nat) = of_char CHR ''1'' - of_char CHR ''1''" by simp
  have h5: "enabledCandidates booth_open ! 0" by code_simp
  have h6: "all_votes_count (eeprom booth_open) < readIntFromEEPROM (eeprom booth_open) 200"
    by code_simp
  have old: "readIntFromEEPROM (eeprom booth_open) 300 = 0" by code_simp
  note c = cast_vote_success [OF h1 h2 h4 h5 h6, of EEPROM_write, THEN conjunct2]
  have new: "readIntFromEEPROM (eeprom (step EEPROM_write booth_open (Key CHR ''1''))) 300 = 1"
    using c [THEN conjunct2] old by simp
  have "tft (step EEPROM_write booth_open (Key CHR ''1'')) =
       tft booth_open @ [Vote_Recorded, Saved_for (C 1), Voting_Booth, Press_star_to_unlock]
   \<and> screen (step EEPROM_write booth_open (Key CHR ''1'')) = In_showVotingMenu True"
    using c [THEN conjunct1] new old by simp
  then show ?thesis using h1 h5 h6 old new by blast
qed

text \<open>
  C7. Same situation, on a device where the count read back after the write differs from
  the incremented value: the only changes are that one write and the message
  "Error / Vote Not Saved"; the booth stays unlocked, no confirmation is shown and the
  write is not repeated.
\<close>

theorem cast_vote_not_verified:
  assumes "screen st = In_showVotingMenu False"
    and "CHR ''1'' \<le> key" "key \<le> CHR ''6''"
    and "i = of_char key - of_char CHR ''1''"
    and "enabledCandidates st ! i"
    and "all_votes_count (eeprom st) < readIntFromEEPROM (eeprom st) 200"
    and "readIntFromEEPROM
           (writeIntToEEPROM W (300 + i * 2) (readIntFromEEPROM (eeprom st) (300 + i * 2) + 1)
              (eeprom st)) (300 + i * 2)
         \<noteq> readIntFromEEPROM (eeprom st) (300 + i * 2) + 1"
  shows "step W st (Key key) =
           st\<lparr>eeprom := writeIntToEEPROM W (300 + i * 2)
                           (readIntFromEEPROM (eeprom st) (300 + i * 2) + 1) (eeprom st),
               tft := tft st @ [Error_Vote_Not_Saved]\<rparr>
    \<and> screen (step W st (Key key)) = In_showVotingMenu False
    \<and> Vote_Recorded \<notin> set (drop (length (tft st)) (tft (step W st (Key key))))"
  unfolding vote_step [OF assms(1-6)] using assms(1,7) by (simp add: Let_def say_def)

theorem cast_vote_not_verified_witness:
  "screen booth_open = In_showVotingMenu False
   \<and> enabledCandidates booth_open ! 0
   \<and> all_votes_count (eeprom booth_open) < readIntFromEEPROM (eeprom booth_open) 200
   \<and> readIntFromEEPROM (writeIntToEEPROM dead_write (300 + 0 * 2)
          (readIntFromEEPROM (eeprom booth_open) (300 + 0 * 2) + 1) (eeprom booth_open))
          (300 + 0 * 2)
        \<noteq> readIntFromEEPROM (eeprom booth_open) (300 + 0 * 2) + 1
   \<and> screen (step dead_write booth_open (Key CHR ''1'')) = In_showVotingMenu False
   \<and> Vote_Recorded \<notin> set (drop (length (tft booth_open))
         (tft (step dead_write booth_open (Key CHR ''1''))))"
proof -
  have h1: "screen booth_open = In_showVotingMenu False" by code_simp
  have h2: "CHR ''1'' \<le> CHR ''1''" "CHR ''1'' \<le> CHR ''6''" by (simp_all add: less_eq_char_def)
  have h4: "(0::nat) = of_char CHR ''1'' - of_char CHR ''1''" by simp
  have h5: "enabledCandidates booth_open ! 0" by code_simp
  have h6: "all_votes_count (eeprom booth_open) < readIntFromEEPROM (eeprom booth_open) 200"
    by code_simp
  have h7: "readIntFromEEPROM (writeIntToEEPROM dead_write (300 + 0 * 2)
          (readIntFromEEPROM (eeprom booth_open) (300 + 0 * 2) + 1) (eeprom booth_open)) (300 + 0 * 2)
        \<noteq> readIntFromEEPROM (eeprom booth_open) (300 + 0 * 2) + 1"
    by (simp add: writeIntToEEPROM_def dead_write_def)
  note c = cast_vote_not_verified [OF h1 h2 h4 h5 h6 h7, THEN conjunct2]
  show ?thesis using h1 h5 h6 h7 c by blast
qed

lemma step_eeprom_in_booth:
  assumes "screen st = In_showVotingMenu inputLocked"
  shows "eeprom (step W st (Key key)) =
    (if CHR ''1'' \<le> key \<and> key \<le> CHR ''6'' \<and> \<not> inputLocked
        \<and> enabledCandidates st ! (of_char key - of_char CHR ''1'')
        \<and> all_votes_count (eeprom st) < readIntFromEEPROM (eeprom st) 200
     then writeIntToEEPROM W (300 + (of_char key - of_char CHR ''1'') * 2)
            (readIntFromEEPROM (eeprom st) (300 + (of_char key - of_char CHR ''1'') * 2) + 1)
            (eeprom st)
     else eeprom st)"
  using assms by (simp add: step_def showVotingMenu_key_def Let_def say_def)

text \<open>
  C9. A digit 1 to 6 pressed in the booth (a successful cast included) changes no byte of
  the EEPROM other than the two at \<open>300 + 2 * i\<close> and \<open>300 + 2 * i + 1\<close>: the counts of
  the other five slots, the six enable flags at 100 to 105 and the cap at 200 read as
  before.
\<close>

theorem cast_vote_frame:
  assumes "screen st = In_showVotingMenu inputLocked"
    and "CHR ''1'' \<le> key" "key \<le> CHR ''6''"
    and "i = of_char key - of_char CHR ''1''"
  shows "(\<forall>a. a \<noteq> 300 + i * 2 \<and> a \<noteq> 300 + i * 2 + 1 \<longrightarrow>
            eeprom (step EEPROM_write st (Key key)) a = eeprom st a)
    \<and> (\<forall>j<6. j \<noteq> i \<longrightarrow>
          readIntFromEEPROM (eeprom (step EEPROM_write st (Key key))) (300 + j * 2)
          = readIntFromEEPROM (eeprom st) (300 + j * 2))
    \<and> (\<forall>j<6. EEPROM_read (eeprom (step EEPROM_write st (Key key))) (100 + j)
          = EEPROM_read (eeprom st) (100 + j))
    \<and> readIntFromEEPROM (eeprom (step EEPROM_write st (Key key))) 200
          = readIntFromEEPROM (eeprom st) 200"
proof -
  have i: "i < 6" using candidateIndex_less [OF assms(2,3)] assms(4) by simp
  have bytes: "eeprom (step EEPROM_write st (Key key)) a = eeprom st a"
    if "a \<noteq> 300 + i * 2" "a \<noteq> 300 + i * 2 + 1" for a
    unfolding step_eeprom_in_booth [OF assms(1)] assms(4) [symmetric]
    using that by (simp add: write_other_byte)
  have "readIntFromEEPROM (eeprom (step EEPROM_write st (Key key))) (300 + j * 2)
          = readIntFromEEPROM (eeprom st) (300 + j * 2)" if "j < 6" "j \<noteq> i" for j
  proof -
    have "300 + j * 2 \<noteq> 300 + i * 2" "300 + j * 2 \<noteq> 300 + i * 2 + 1"
      "300 + j * 2 + 1 \<noteq> 300 + i * 2" "300 + j * 2 + 1 \<noteq> 300 + i * 2 + 1"
      using that by presburger+
    then show ?thesis by (simp add: readIntFromEEPROM_def EEPROM_read_def bytes)
  qed
  moreover have "EEPROM_read (eeprom (step EEPROM_write st (Key key))) (100 + j)
          = EEPROM_read (eeprom st) (100 + j)" if "j < 6" for j
    using that by (simp add: EEPROM_read_def bytes)
  moreover have "readIntFromEEPROM (eeprom (step EEPROM_write st (Key key))) 200
          = readIntFromEEPROM (eeprom st) 200"
    by (simp add: readIntFromEEPROM_def EEPROM_read_def bytes)
  ultimately show ?thesis using bytes by blast
qed

theorem cast_vote_frame_witness:
  "screen booth_open = In_showVotingMenu False
   \<and> readIntFromEEPROM (eeprom (step EEPROM_write booth_open (Key CHR ''3''))) (300 + 2 * 2)
       \<noteq> readIntFromEEPROM (eeprom booth_open) (300 + 2 * 2)
   \<and> readIntFromEEPROM (eeprom (step EEPROM_write booth_open (Key CHR ''3''))) (300 + 1 * 2)
       = readIntFromEEPROM (eeprom booth_open) (300 + 1 * 2)
   \<and> EEPROM_read (eeprom (step EEPROM_write booth_open (Key CHR ''3''))) (100 + 2)
       = EEPROM_read (eeprom booth_open) (100 + 2)
   \<and> readIntFromEEPROM (eeprom (step EEPROM_write booth_open (Key CHR ''3''))) 200
       = readIntFromEEPROM (eeprom booth_open) 200"
proof -
  have h1: "screen booth_open = In_showVotingMenu False" by code_simp
  have h2: "CHR ''1'' \<le> CHR ''3''" "CHR ''3'' \<le> CHR ''6''" by (simp_all add: less_eq_char_def)
  have h4: "(2::nat) = of_char CHR ''3'' - of_char CHR ''1''" by simp
  have new: "readIntFromEEPROM (eeprom (step EEPROM_write booth_open (Key CHR ''3''))) (300 + 2 * 2)
       \<noteq> readIntFromEEPROM (eeprom booth_open) (300 + 2 * 2)"
    by code_simp
  note f = cast_vote_frame [OF h1 h2 h4, THEN conjunct2]
  have j: "(1::nat) < 6" "(1::nat) \<noteq> 2" "(2::nat) < 6" by simp_all
  note f1 = f [THEN conjunct1, rule_format, OF j(1,2)]
  note f2 = f [THEN conjunct2, THEN conjunct1, rule_format, OF j(3)]
  note f3 = f [THEN conjunct2, THEN conjunct2]
  show ?thesis using h1 new f1 f2 f3 by blast
qed

section \<open>The password box\<close>

lemma tft_invoke:
  "tft (invoke W cb st) = tft st @
     (case cb of Cb_showAdminMenu \<Rightarrow> [Admin_Mode] | Cb_showVotingMenu \<Rightarrow> [Voting_Booth]
      | Cb_resetEEPROM \<Rightarrow> [EEPROM_Reset, Admin_Mode])"
  by (cases cb) (simp_all add: invoke_def showAdminMenu_def showVotingMenu_def resetEEPROM_def
      say_def push_def upt_6 Let_def)

lemma resetEEPROM_effect:
  "screen (resetEEPROM W st) = In_showAdminMenu"
  "tft (resetEEPROM W st) = tft st @ [EEPROM_Reset, Admin_Mode]"
  "stack (resetEEPROM W st) = Leave # stack st"
  "eeprom (resetEEPROM W st) =
     writeIntToEEPROM W 200 100
       (fold (\<lambda>i m. writeIntToEEPROM W (300 + i * 2) 0 (W (i + 100) 1 m)) [0..<6] (eeprom st))"
  by (simp_all add: resetEEPROM_def upt_6 Let_def showAdminMenu_def push_def say_def
      default_maxVoters_def)

lemma resetEEPROM_reads:
  "i < 6 \<Longrightarrow> EEPROM_read (eeprom (resetEEPROM EEPROM_write st)) (100 + i) = 1"
  "i < 6 \<Longrightarrow> readIntFromEEPROM (eeprom (resetEEPROM EEPROM_write st)) (300 + i * 2) = 0"
  "readIntFromEEPROM (eeprom (resetEEPROM EEPROM_write st)) 200 = 100"
proof -
  show "readIntFromEEPROM (eeprom (resetEEPROM EEPROM_write st)) 200 = 100"
    by (simp add: resetEEPROM_effect(4) read_write_same EEPROM_SIZE_def)
  assume "i < 6"
  then have i: "i \<in> {0, 1, 2, 3, 4, 5}" by auto
  from i show "EEPROM_read (eeprom (resetEEPROM EEPROM_write st)) (100 + i) = 1"
    by (auto simp: resetEEPROM_effect(4) upt_6 writeIntToEEPROM_def EEPROM_write_def
        EEPROM_read_def EEPROM_SIZE_def)
  from i show "readIntFromEEPROM (eeprom (resetEEPROM EEPROM_write st)) (300 + i * 2) = 0"
    by (auto simp: resetEEPROM_effect(4) upt_6 writeIntToEEPROM_def EEPROM_write_def
        EEPROM_read_def EEPROM_SIZE_def readIntFromEEPROM_plus)
qed

text \<open>
  C4. When \<^verbatim>\<open>'*'\<close> confirms the password box holding \<open>buf\<close>: if \<open>buf\<close> is
  \<open>''1101''\<close> "Access Granted!" is shown and the function passed in is called; a
  buffer of another length gets the "must be 4 digits" message, a buffer of length 4 with
  other content the "Incorrect Password!" message, which is a different one; after either
  rejection the buffer is empty and nothing else has run. Access is granted for no other
  buffer. What the call of the function passed in does is spelled out: for
  \<^verbatim>\<open>showAdminMenu\<close> the admin menu is drawn and polled, for \<^verbatim>\<open>showVotingMenu\<close> the
  booth is drawn and polled unlocked, both with the password box left on the stack and
  nothing else changed; for \<^verbatim>\<open>resetEEPROM\<close> the six flags are written as 1, the six
  counts as 0 and the cap as 100, "EEPROM Reset!" is shown and the admin menu is drawn
  and polled, and on the working EEPROM they read back so.
\<close>

theorem password_confirm:
  assumes "screen st = In_showPasswordBox cb buf"
  shows "step W st (Key CHR ''*'') =
      (if buf = ''1101'' then invoke W cb (push Leave (say [Access_Granted] st))
       else if length buf \<noteq> 4
         then (say [Password_must_be_4_digits] st)\<lparr>screen := In_showPasswordBox cb []\<rparr>
       else (say [Incorrect_Password] st)\<lparr>screen := In_showPasswordBox cb []\<rparr>)
    \<and> hd (drop (length (tft st)) (tft (step W st (Key CHR ''*'')))) =
      (if buf = ''1101'' then Access_Granted
       else if length buf \<noteq> 4 then Password_must_be_4_digits else Incorrect_Password)
    \<and> Password_must_be_4_digits \<noteq> Incorrect_Password
    \<and> (buf = ''1101'' \<and> cb = Cb_showAdminMenu \<longrightarrow>
          step W st (Key CHR ''*'') =
            st\<lparr>screen := In_showAdminMenu, stack := Leave # stack st,
                tft := tft st @ [Access_Granted, Admin_Mode]\<rparr>)
    \<and> (buf = ''1101'' \<and> cb = Cb_showVotingMenu \<longrightarrow>
          step W st (Key CHR ''*'') =
            st\<lparr>screen := In_showVotingMenu False, stack := Leave # stack st,
                tft := tft st @ [Access_Granted, Voting_Booth]\<rparr>)
    \<and> (buf = ''1101'' \<and> cb = Cb_resetEEPROM \<longrightarrow>
          screen (step W st (Key CHR ''*'')) = In_showAdminMenu
          \<and> stack (step W st (Key CHR ''*'')) = Leave # Leave # stack st
          \<and> tft (step W st (Key CHR ''*'')) =
              tft st @ [Access_Granted, EEPROM_Reset, Admin_Mode]
          \<and> eeprom (step W st (Key CHR ''*'')) =
              writeIntToEEPROM W 200 100
                (fold (\<lambda>i m. writeIntToEEPROM W (300 + i * 2) 0 (W (i + 100) 1 m)) [0..<6]
                   (eeprom st))
          \<and> (\<forall>i<6. EEPROM_read (eeprom (step EEPROM_write st (Key CHR ''*''))) (100 + i) = 1
                \<and> readIntFromEEPROM (eeprom (step EEPROM_write st (Key CHR ''*'')))
                     (300 + i * 2) = 0)
          \<and> readIntFromEEPROM (eeprom (step EEPROM_write st (Key CHR ''*''))) 200 = 100)"
proof -
  have s: "step W st (Key CHR ''*'') =
      (if buf = ''1101'' then invoke W cb (push Leave (say [Access_Granted] st))
       else if length buf \<noteq> 4
         then (say [Password_must_be_4_digits] st)\<lparr>screen := In_showPasswordBox cb []\<rparr>
       else (say [Incorrect_Password] st)\<lparr>screen := In_showPasswordBox cb []\<rparr>)" for W
    using assms by (auto simp: step_def showPasswordBox_key_def correctPassword_def)
  have h: "hd (drop (length (tft st)) (tft (step W st (Key CHR ''*'')))) =
      (if buf = ''1101'' then Access_Granted
       else if length buf \<noteq> 4 then Password_must_be_4_digits else Incorrect_Password)"
    unfolding s by (simp add: tft_invoke say_def push_def)
  have a: "step W st (Key CHR ''*'') =
            st\<lparr>screen := In_showAdminMenu, stack := Leave # stack st,
                tft := tft st @ [Access_Granted, Admin_Mode]\<rparr>"
    if "buf = ''1101''" "cb = Cb_showAdminMenu"
    unfolding s using that by (simp add: invoke_def showAdminMenu_def push_def say_def)
  have v: "step W st (Key CHR ''*'') =
            st\<lparr>screen := In_showVotingMenu False, stack := Leave # stack st,
                tft := tft st @ [Access_Granted, Voting_Booth]\<rparr>"
    if "buf = ''1101''" "cb = Cb_showVotingMenu"
    unfolding s using that by (simp add: invoke_def showVotingMenu_def push_def say_def)
  have r: "step W st (Key CHR ''*'') = resetEEPROM W (push Leave (say [Access_Granted] st))"
    if "buf = ''1101''" "cb = Cb_resetEEPROM" for W
    unfolding s using that by (simp add: invoke_def)
  have r1: "screen (step W st (Key CHR ''*'')) = In_showAdminMenu
          \<and> stack (step W st (Key CHR ''*'')) = Leave # Leave # stack st
          \<and> tft (step W st (Key CHR ''*'')) =
              tft st @ [Access_Granted, EEPROM_Reset, Admin_Mode]
          \<and> eeprom (step W st (Key CHR ''*'')) =
              writeIntToEEPROM W 200 100
                (fold (\<lambda>i m. writeIntToEEPROM W (300 + i * 2) 0 (W (i + 100) 1 m)) [0..<6]
                   (eeprom st))"
    if "buf = ''1101''" "cb = Cb_resetEEPROM"
    unfolding r [OF that] resetEEPROM_effect by (simp add: push_def say_def)
  have r2: "(\<forall>i<6. EEPROM_read (eeprom (step EEPROM_write st (Key CHR ''*''))) (100 + i) = 1
                \<and> readIntFromEEPROM (eeprom (step EEPROM_write st (Key CHR ''*'')))
                     (300 + i * 2) = 0)
          \<and> readIntFromEEPROM (eeprom (step EEPROM_write st (Key CHR ''*''))) 200 = 100"
    if "buf = ''1101''" "cb = Cb_resetEEPROM"
    unfolding r [OF that] by (simp add: resetEEPROM_reads)
  from s h a v r1 r2 show ?thesis by blast
qed


theorem password_confirm_witness:
  "screen (run EEPROM_write (setup_ino zeroed) (map Key ''11101''))
     = In_showPasswordBox Cb_showAdminMenu ''1101''
   \<and> screen (step EEPROM_write (run EEPROM_write (setup_ino zeroed) (map Key ''11101''))
        (Key CHR ''*'')) = In_showAdminMenu
   \<and> tft (step EEPROM_write (run EEPROM_write (setup_ino zeroed) (map Key ''11101''))
        (Key CHR ''*''))
     = tft (run EEPROM_write (setup_ino zeroed) (map Key ''11101''))
       @ [Access_Granted, Admin_Mode]
   \<and> screen (run EEPROM_write (setup_ino zeroed) (map Key ''11101*41101''))
     = In_showPasswordBox Cb_resetEEPROM ''1101''
   \<and> readIntFromEEPROM (eeprom (step EEPROM_write
        (run EEPROM_write (setup_ino zeroed) (map Key ''11101*41101'')) (Key CHR ''*''))) 200 = 100
   \<and> tft (step EEPROM_write (run EEPROM_write (setup_ino zeroed) (map Key ''11101*41101''))
        (Key CHR ''*''))
     = tft (run EEPROM_write (setup_ino zeroed) (map Key ''11101*41101''))
       @ [Access_Granted, EEPROM_Reset, Admin_Mode]"
proof -
  have h1: "screen (run EEPROM_write (setup_ino zeroed) (map Key ''11101''))
     = In_showPasswordBox Cb_showAdminMenu ''1101''" by code_simp
  have h2: "screen (run EEPROM_write (setup_ino zeroed) (map Key ''11101*41101''))
     = In_showPasswordBox Cb_resetEEPROM ''1101''" by code_simp
  note a = password_confirm [OF h1, of EEPROM_write, THEN conjunct2, THEN conjunct2,
      THEN conjunct2, THEN conjunct1, rule_format, OF conjI [OF refl refl]]
  note r = password_confirm [OF h2, of EEPROM_write, THEN conjunct2, THEN conjunct2,
      THEN conjunct2, THEN conjunct2, THEN conjunct2, rule_format, OF conjI [OF refl refl]]
  have a1: "screen (step EEPROM_write (run EEPROM_write (setup_ino zeroed) (map Key ''11101''))
        (Key CHR ''*'')) = In_showAdminMenu"
    "tft (step EEPROM_write (run EEPROM_write (setup_ino zeroed) (map Key ''11101''))
        (Key CHR ''*''))
     = tft (run EEPROM_write (setup_ino zeroed) (map Key ''11101''))
       @ [Access_Granted, Admin_Mode]"
    unfolding a by simp_all
  show ?thesis using h1 h2 a1 r by blast
qed

text \<open>
  C8. A key other than \<^verbatim>\<open>'*'\<close> and \<^verbatim>\<open>'#'\<close> pressed in the password box is
  appended exactly when the buffer holds fewer than 8 characters and the key is in
  \<^verbatim>\<open>'0'\<close> to \<^verbatim>\<open>'6'\<close>; otherwise nothing changes. In particular 7, 8 and 9 leave
  the buffer, and the whole state, as they are.
\<close>

theorem password_digit_filter:
  assumes "screen st = In_showPasswordBox cb buf"
      and "key \<noteq> CHR 0x00" "key \<noteq> CHR ''*''" "key \<noteq> CHR ''#''"
  shows "step W st (Key key) =
      (if length buf < 8 \<and> CHR ''0'' \<le> key \<and> key \<le> CHR ''6''
       then (say [Entered (length buf + 1)] st)\<lparr>screen := In_showPasswordBox cb (buf @ [key])\<rparr>
       else st)
    \<and> (key \<in> {CHR ''7'', CHR ''8'', CHR ''9''} \<longrightarrow> step W st (Key key) = st)"
  using assms
  by (auto simp: step_def showPasswordBox_key_def less_eq_char_def)

theorem password_digit_filter_witness:
  "screen (run EEPROM_write (setup_ino zeroed) (map Key ''1110''))
     = In_showPasswordBox Cb_showAdminMenu ''110''
   \<and> step EEPROM_write (run EEPROM_write (setup_ino zeroed) (map Key ''1110'')) (Key CHR ''7'')
     = run EEPROM_write (setup_ino zeroed) (map Key ''1110'')"
proof -
  have h: "screen (run EEPROM_write (setup_ino zeroed) (map Key ''1110''))
     = In_showPasswordBox Cb_showAdminMenu ''110''" by code_simp
  have k: "CHR ''7'' \<noteq> CHR 0x00" "CHR ''7'' \<noteq> CHR ''*''" "CHR ''7'' \<noteq> CHR ''#''"
    "CHR ''7'' \<in> {CHR ''7'', CHR ''8'', CHR ''9''}" by simp_all
  note c = password_digit_filter [OF h k(1,2,3), of EEPROM_write, THEN conjunct2, rule_format, OF k(4)]
  show ?thesis using h c by blast
qed

section \<open>The locked booth\<close>

lemma locked_key:
  "screen st = In_showVotingMenu True \<Longrightarrow> k \<noteq> CHR ''*'' \<Longrightarrow> step W st (Key k) = st"
  by (simp add: step_def showVotingMenu_key_def Let_def)

text \<open>
  C2. In the locked booth any sequence of keys without \<^verbatim>\<open>'*'\<close> (so any number of
  digits 1 to 6 in any order) leaves the whole state, and with it all six counts,
  unchanged; \<^verbatim>\<open>'*'\<close> clears the lock and changes nothing in the EEPROM.
\<close>

theorem locked_booth_ignores_keys:
  assumes "screen st = In_showVotingMenu True" and "\<forall>k\<in>set ks. k \<noteq> CHR ''*''"
  shows "run W st (map Key ks) = st
    \<and> screen (step W st (Key CHR ''*'')) = In_showVotingMenu False
    \<and> eeprom (step W st (Key CHR ''*'')) = eeprom st"
proof -
  from assms have "run W st (map Key ks) = st"
    by (induction ks) (simp_all add: locked_key)
  moreover from assms(1) have "screen (step W st (Key CHR ''*'')) = In_showVotingMenu False"
    "eeprom (step W st (Key CHR ''*'')) = eeprom st"
    by (simp_all add: step_def showVotingMenu_key_def Let_def say_def less_eq_char_def)
  ultimately show ?thesis by simp
qed

theorem locked_booth_ignores_keys_witness:
  "screen booth_locked = In_showVotingMenu True
   \<and> run EEPROM_write booth_locked (map Key ''1234561'') = booth_locked
   \<and> screen (step EEPROM_write booth_locked (Key CHR ''*'')) = In_showVotingMenu False"
proof -
  have h: "screen booth_locked = In_showVotingMenu True" by code_simp
  have k: "\<forall>k\<in>set ''1234561''. k \<noteq> CHR ''*''" by simp
  note c = locked_booth_ignores_keys [OF h k, of EEPROM_write]
  show ?thesis using h c by blast
qed

section \<open>The winner line of the results screen\<close>

lemma scan_upto:
  "fold (\<lambda>i (maxVotes, winner, totalVotesCast).
             let candidateVotes = readIntFromEEPROM m (300 + i * 2);
                 totalVotesCast = totalVotesCast + candidateVotes
             in if candidateVotes > maxVotes then (candidateVotes, int i, totalVotesCast)
                else (maxVotes, winner, totalVotesCast))
          [0..<n] (0, - 1, 0) = (mx, w, t)
   \<Longrightarrow> (mx = 0 \<and> w = - 1 \<and> (\<forall>i<n. readIntFromEEPROM m (300 + i * 2) = 0))
     \<or> (\<exists>k<n. w = int k \<and> readIntFromEEPROM m (300 + k * 2) = mx
           \<and> (\<forall>i<n. readIntFromEEPROM m (300 + i * 2) \<le> mx))"
proof (induction n arbitrary: mx w t)
  case 0
  then show ?case by simp
next
  case (Suc n)
  obtain mx' w' t' where prev: "fold (\<lambda>i (maxVotes, winner, totalVotesCast).
             let candidateVotes = readIntFromEEPROM m (300 + i * 2);
                 totalVotesCast = totalVotesCast + candidateVotes
             in if candidateVotes > maxVotes then (candidateVotes, int i, totalVotesCast)
                else (maxVotes, winner, totalVotesCast))
          [0..<n] (0, - 1, 0) = (mx', w', t')"
    using prod_cases3 by blast
  note ih = Suc.IH [OF prev]
  have nonneg: "0 \<le> readIntFromEEPROM m (300 + n * 2)"
    using readIntFromEEPROM_range by blast
  show ?case
  proof (cases "readIntFromEEPROM m (300 + n * 2) > mx'")
    case True
    with Suc.prems prev have "mx = readIntFromEEPROM m (300 + n * 2)" "w = int n"
      by (simp_all add: Let_def)
    with True ih show ?thesis
      by (auto simp: less_Suc_eq intro!: exI [of _ n])
  next
    case False
    with Suc.prems prev have "mx = mx'" "w = w'"
      by (simp_all add: Let_def)
    with False ih nonneg show ?thesis
      by (auto simp: less_Suc_eq)
  qed
qed

lemma tie_upto:
  "fold (\<lambda>i tie. if readIntFromEEPROM m (300 + i * 2) = mx \<and> int i \<noteq> w then True else tie)
        [0..<n] False
   = (\<exists>i<n. readIntFromEEPROM m (300 + i * 2) = mx \<and> int i \<noteq> w)"
  by (induction n) (auto simp: less_Suc_eq)

lemma winners_upto:
  "fold (\<lambda>i printed. if readIntFromEEPROM m (300 + i * 2) = mx
                       then printed @ [int i + 1] else printed)
        [0..<n] []
   = map (\<lambda>i. int i + 1) (filter (\<lambda>i. readIntFromEEPROM m (300 + i * 2) = mx) [0..<n])"
  by (induction n) auto



lemma perCandidateCounts_nth:
  "i < 6 \<Longrightarrow> perCandidateCounts m ! i = readIntFromEEPROM m (300 + i * 2)"
  by (simp add: perCandidateCounts_def del: upt_Suc)

lemma set_perCandidateCounts:
  "set (perCandidateCounts m) = (\<lambda>i. readIntFromEEPROM m (300 + i * 2)) ` {..<6}"
  by (simp add: perCandidateCounts_def atLeast0LessThan del: upt_Suc)

lemma winnerSet_eq:
  "winnerSet m = {i. i < 6 \<and> readIntFromEEPROM m (300 + i * 2)
                     = Max ((\<lambda>i. readIntFromEEPROM m (300 + i * 2)) ` {..<6})}"
  unfolding winnerSet_def set_filter set_upt set_perCandidateCounts
  by (auto simp: perCandidateCounts_nth)

text \<open>
  The winner line computed from an EEPROM: its candidate numbers are the members of the
  winner set, each index plus one, and it is the tie line exactly when the winner set has
  more than one member.
\<close>

lemma results_winner_line_winnerSet:
  "set (printed_candidates (results_winner_line m)) = (\<lambda>i. int i + 1) ` winnerSet m
   \<and> reports_tie (results_winner_line m) = (card (winnerSet m) > 1)"
proof -
  define cnt where "cnt = (\<lambda>i. readIntFromEEPROM m (300 + i * 2))"
  define M where "M = Max (cnt ` {..<6})"
  obtain mx w t where scan: "results_scan m = (mx, w, t)"
    using prod_cases3 by blast
  have tie: "results_tie m mx w = (\<exists>i<6. cnt i = mx \<and> int i \<noteq> w)"
    unfolding results_tie_def cnt_def by (rule tie_upto)
  have line: "results_winner_line m =
      (if \<exists>i<6. cnt i = mx \<and> int i \<noteq> w
       then Winners (map (\<lambda>i. int i + 1) (filter (\<lambda>i. cnt i = mx) [0..<6]))
       else Winner (w + 1))"
    unfolding results_winner_line_def scan Let_def fst_conv snd_conv tie winners_upto cnt_def ..
  have S: "winnerSet m = {i. i < 6 \<and> cnt i = M}"
    unfolding winnerSet_eq cnt_def M_def ..
  have cases: "(mx = 0 \<and> w = - 1 \<and> (\<forall>i<6. cnt i = 0))
     \<or> (\<exists>k<6. w = int k \<and> cnt k = mx \<and> (\<forall>i<6. cnt i \<le> mx))"
    unfolding cnt_def using scan unfolding results_scan_def by (rule scan_upto)
  have mx: "mx = M"
  proof -
    have "Max (cnt ` {..<6}) = mx"
    proof (rule Max_eqI)
      show "finite (cnt ` {..<6})" by simp
      show "y \<le> mx" if "y \<in> cnt ` {..<6}" for y using that cases by auto
      have "\<exists>k<6. cnt k = mx" using cases by (auto intro: exI [of _ 0])
      then show "mx \<in> cnt ` {..<6}" by auto
    qed
    then show ?thesis by (simp add: M_def)
  qed
  have single: "\<exists>k<6. w = int k \<and> cnt k = mx \<and> {i. i < 6 \<and> cnt i = M} = {k}"
    if no_tie: "\<not> (\<exists>i<6. cnt i = mx \<and> int i \<noteq> w)"
  proof -
    have "\<exists>k<6. w = int k \<and> cnt k = mx"
    proof (rule ccontr)
      assume neg: "\<not> (\<exists>k<6. w = int k \<and> cnt k = mx)"
      with cases have "mx = 0" "w = - 1" "\<forall>i<6. cnt i = 0" by blast+
      then have "(0::nat) < 6" "cnt 0 = mx" "int 0 \<noteq> w" by simp_all
      with no_tie show False by blast
    qed
    then obtain k where k: "k < 6" "w = int k" "cnt k = mx" by blast
    have "i = k" if "i < 6" "cnt i = M" for i
    proof -
      from no_tie that mx have "int i = w" by blast
      with k(2) show ?thesis by simp
    qed
    with k mx have "{i. i < 6 \<and> cnt i = M} = {k}" by blast
    with k show ?thesis by blast
  qed
  have printed: "set (printed_candidates (results_winner_line m)) = (\<lambda>i. int i + 1) ` winnerSet m"
  proof (cases "\<exists>i<6. cnt i = mx \<and> int i \<noteq> w")
    case True
    have "set (filter (\<lambda>i. cnt i = mx) [0..<6]) = {i. i < 6 \<and> cnt i = M}"
      unfolding set_filter set_upt mx by auto
    moreover from True have "results_winner_line m =
        Winners (map (\<lambda>i. int i + 1) (filter (\<lambda>i. cnt i = mx) [0..<6]))"
      by (simp only: line if_True)
    ultimately show ?thesis unfolding S by (simp only: printed_candidates.simps set_map)
  next
    case False
    from single [OF False] obtain k where k: "w = int k" "{i. i < 6 \<and> cnt i = M} = {k}"
      by blast
    from False have l: "results_winner_line m = Winner (w + 1)"
      by (simp only: line if_False)
    show ?thesis unfolding l S k by simp
  qed
  have tie_card: "reports_tie (results_winner_line m) = (card (winnerSet m) > 1)"
  proof (cases "\<exists>i<6. cnt i = mx \<and> int i \<noteq> w")
    case True
    then obtain i where i: "i < 6" "cnt i = mx" "int i \<noteq> w" by blast
    have "\<exists>j<6. cnt j = mx \<and> j \<noteq> i"
    proof (cases "mx = 0 \<and> w = - 1 \<and> (\<forall>i<6. cnt i = 0)")
      case True
      then have "cnt 0 = mx" "cnt 1 = mx" "(0::nat) < 6" "(1::nat) < 6" by simp_all
      then show ?thesis by (cases "i = 0") (blast, metis)
    next
      case False
      with cases obtain k where "k < 6" "w = int k" "cnt k = mx" by blast
      with i(3) show ?thesis by blast
    qed
    then obtain j where j: "j < 6" "cnt j = mx" "j \<noteq> i" by blast
    have fin: "finite {i. i < 6 \<and> cnt i = M}" by simp
    have "{i, j} \<subseteq> {i. i < 6 \<and> cnt i = M}" using i j mx by blast
    with fin have "card {i, j} \<le> card {i. i < 6 \<and> cnt i = M}"
      by (rule card_mono)
    with j(3) have c: "card (winnerSet m) > 1" unfolding S by simp
    from True have l: "results_winner_line m =
        Winners (map (\<lambda>i. int i + 1) (filter (\<lambda>i. cnt i = mx) [0..<6]))"
      by (simp only: line if_True)
    show ?thesis unfolding l using c by simp
  next
    case False
    from single [OF False] obtain k where k: "w = int k" "{i. i < 6 \<and> cnt i = M} = {k}"
      by blast
    from False have l: "results_winner_line m = Winner (w + 1)"
      by (simp only: line if_False)
    show ?thesis unfolding l S k by simp
  qed
  from printed tie_card show ?thesis by blast
qed

section \<open>Power-on and the results screen\<close>

text \<open>
  What the power-on code loads: the cap from the 16-bit value at 200, each enable flag
  from the byte at \<open>100 + i\<close> (any non-zero byte is \<open>true\<close>), and each
  \<^verbatim>\<open>votes[i]\<close> from the single byte at \<open>300 + i\<close>.
\<close>

lemma setup_ino_loads:
  "maxVoters (setup_ino m) = readIntFromEEPROM m 200"
  "i < 6 \<Longrightarrow> enabledCandidates (setup_ino m) ! i = (EEPROM_read m (i + 100) \<noteq> 0)"
  "i < 6 \<Longrightarrow> votes (setup_ino m) ! i = uint (EEPROM_read m (i + 300))"
proof -
  show "maxVoters (setup_ino m) = readIntFromEEPROM m 200"
    by (simp add: setup_ino_def upt_6 Let_def showResetMenu_def say_def)
  assume "i < 6"
  then have i: "i \<in> {0, 1, 2, 3, 4, 5}" by auto
  from i show "enabledCandidates (setup_ino m) ! i = (EEPROM_read m (i + 100) \<noteq> 0)"
    by (auto simp: setup_ino_def upt_6 Let_def showResetMenu_def say_def)
  from i show "votes (setup_ino m) ! i = uint (EEPROM_read m (i + 300))"
    by (auto simp: setup_ino_def upt_6 Let_def showResetMenu_def say_def)
qed

text \<open>
  The results screen stops in the division exactly when the stored cap is 0; otherwise
  its last line is the winner line.
\<close>

lemma showResults_cap:
  "readIntFromEEPROM (eeprom st) 200 = 0 \<Longrightarrow> screen (showResults st) = Halted IntegerDivideByZero"
  "readIntFromEEPROM (eeprom st) 200 \<noteq> 0 \<Longrightarrow> screen (showResults st) = In_showResults"
  "readIntFromEEPROM (eeprom st) 200 \<noteq> 0 \<Longrightarrow>
     last (tft (showResults st)) = Results_Winner (results_winner_line (eeprom st))"
  by (simp_all add: showResults_def Let_def c_div_def say_def)

lemma showResults_tft:
  "readIntFromEEPROM (eeprom st) 200 = 0 \<Longrightarrow>
     \<exists>cast. tft (showResults st) = tft st @
       [Results_Counts (perCandidateCounts (eeprom st)), Results_Votes cast 0]"
  "readIntFromEEPROM (eeprom st) 200 \<noteq> 0 \<Longrightarrow>
     \<exists>cast percent. tft (showResults st) = tft st @
       [Results_Counts (perCandidateCounts (eeprom st)),
        Results_Votes cast (readIntFromEEPROM (eeprom st) 200),
        Results_Percent percent, Results_Winner (results_winner_line (eeprom st))]"
  by (simp_all add: showResults_def Let_def c_div_def say_def perCandidateCounts_def)

text \<open>
  C10. Every winner line that \<^verbatim>\<open>showResults\<close> puts on the screen names exactly the
  members of the winner set of the stored counts (each index printed plus one), and it is
  the tie line "Winners:" exactly when the winner set has more than one member. The
  winner line is the last line of the screen whenever the stored cap is not 0 (with the
  cap 0 the screen stops in the division before it, see C5). With the cap 100 and the
  counts 3, 3, 1, 0, 0, 0 stored, "Show Results" ends with "Winners: C1 C2" and the
  winner set is \<open>{0, 1}\<close>; with 5, 1, 1, 1, 1, 1 it ends with "Winner: C1" and the
  winner set is \<open>{0}\<close>.
\<close>

theorem showResults_winner_line_is_winnerSet:
  "(\<forall>wl. Results_Winner wl \<in> set (drop (length (tft st)) (tft (showResults st))) \<longrightarrow>
        set (printed_candidates wl) = (\<lambda>i. int i + 1) ` winnerSet (eeprom st)
        \<and> reports_tie wl = (1 < card (winnerSet (eeprom st))))
   \<and> (readIntFromEEPROM (eeprom st) 200 \<noteq> 0 \<longrightarrow>
        screen (showResults st) = In_showResults
        \<and> (\<exists>wl. last (tft (showResults st)) = Results_Winner wl
              \<and> Results_Winner wl \<in> set (drop (length (tft st)) (tft (showResults st)))))
   \<and> perCandidateCounts (eeprom (results_shown 100 [3, 3, 1, 0, 0, 0])) = [3, 3, 1, 0, 0, 0]
   \<and> last (tft (results_shown 100 [3, 3, 1, 0, 0, 0])) = Results_Winner (Winners [1, 2])
   \<and> winnerSet (eeprom (results_shown 100 [3, 3, 1, 0, 0, 0])) = {0, 1}
   \<and> perCandidateCounts (eeprom (results_shown 100 [5, 1, 1, 1, 1, 1])) = [5, 1, 1, 1, 1, 1]
   \<and> last (tft (results_shown 100 [5, 1, 1, 1, 1, 1])) = Results_Winner (Winner 1)
   \<and> winnerSet (eeprom (results_shown 100 [5, 1, 1, 1, 1, 1])) = {0}"
proof -
  note w = results_winner_line_winnerSet [of "eeprom st", THEN conjunct1]
    results_winner_line_winnerSet [of "eeprom st", THEN conjunct2]
  have sound: "set (printed_candidates wl) = (\<lambda>i. int i + 1) ` winnerSet (eeprom st)
        \<and> reports_tie wl = (1 < card (winnerSet (eeprom st)))"
    if "Results_Winner wl \<in> set (drop (length (tft st)) (tft (showResults st)))" for wl
  proof (cases "readIntFromEEPROM (eeprom st) 200 = 0")
    case True
    from showResults_tft(1) [OF True] that show ?thesis by auto
  next
    case False
    from showResults_tft(2) [OF False] that have "wl = results_winner_line (eeprom st)" by auto
    with w show ?thesis by simp
  qed
  have shown: "screen (showResults st) = In_showResults
        \<and> (\<exists>wl. last (tft (showResults st)) = Results_Winner wl
              \<and> Results_Winner wl \<in> set (drop (length (tft st)) (tft (showResults st))))"
    if "readIntFromEEPROM (eeprom st) 200 \<noteq> 0"
    using showResults_tft(2) [OF that] showResults_cap(2) [OF that] by auto
  have e1: "perCandidateCounts (eeprom (results_shown 100 [3, 3, 1, 0, 0, 0])) = [3, 3, 1, 0, 0, 0]"
    by code_simp
  have e2: "last (tft (results_shown 100 [3, 3, 1, 0, 0, 0])) = Results_Winner (Winners [1, 2])"
    by code_simp
  have e3: "winnerSet (eeprom (results_shown 100 [3, 3, 1, 0, 0, 0])) = {0, 1}"
    by code_simp
  have e4: "perCandidateCounts (eeprom (results_shown 100 [5, 1, 1, 1, 1, 1])) = [5, 1, 1, 1, 1, 1]"
    by code_simp
  have e5: "last (tft (results_shown 100 [5, 1, 1, 1, 1, 1])) = Results_Winner (Winner 1)"
    by code_simp
  have e6: "winnerSet (eeprom (results_shown 100 [5, 1, 1, 1, 1, 1])) = {0}"
    by code_simp
  from sound shown e1 e2 e3 e4 e5 e6 show ?thesis by blast
qed

theorem showResults_winner_line_is_winnerSet_witness:
  "readIntFromEEPROM (eeprom (setup_ino (cap_and_counts_stored 100 [3, 3, 1, 0, 0, 0]))) 200 = 100
   \<and> Results_Winner (Winners [1, 2])
       \<in> set (drop (length (tft (setup_ino (cap_and_counts_stored 100 [3, 3, 1, 0, 0, 0]))))
                (tft (showResults (setup_ino (cap_and_counts_stored 100 [3, 3, 1, 0, 0, 0])))))
   \<and> set (printed_candidates (Winners [1, 2]))
       = (\<lambda>i. int i + 1) ` winnerSet (eeprom (setup_ino (cap_and_counts_stored 100 [3, 3, 1, 0, 0, 0])))
   \<and> reports_tie (Winners [1, 2])
       = (1 < card (winnerSet (eeprom (setup_ino (cap_and_counts_stored 100 [3, 3, 1, 0, 0, 0])))))
   \<and> screen (showResults (setup_ino (cap_and_counts_stored 100 [3, 3, 1, 0, 0, 0]))) = In_showResults"
proof -
  have h1: "readIntFromEEPROM (eeprom (setup_ino (cap_and_counts_stored 100 [3, 3, 1, 0, 0, 0]))) 200 = 100"
    by code_simp
  then have h1': "readIntFromEEPROM (eeprom (setup_ino (cap_and_counts_stored 100 [3, 3, 1, 0, 0, 0]))) 200 \<noteq> 0"
    by simp
  have h2: "Results_Winner (Winners [1, 2])
       \<in> set (drop (length (tft (setup_ino (cap_and_counts_stored 100 [3, 3, 1, 0, 0, 0]))))
                (tft (showResults (setup_ino (cap_and_counts_stored 100 [3, 3, 1, 0, 0, 0])))))"
    by code_simp
  note t = showResults_winner_line_is_winnerSet
    [of "setup_ino (cap_and_counts_stored 100 [3, 3, 1, 0, 0, 0])"]
  note c1 = t [THEN conjunct1, rule_format, OF h2]
  note c2 = t [THEN conjunct2, THEN conjunct1, rule_format, OF h1', THEN conjunct1]
  show ?thesis using h1 h2 c1 c2 by blast
qed

text \<open>
  C5. With 0 stored as the cap (here: a zeroed EEPROM), entering "Show Results" from the
  admin menu reaches the division \<^verbatim>\<open>(totalVotesCast * 100) / totalVotes\<close> with
  divisor 0: the program stops in the CPU exception after printing the counts and the
  totals; no "insufficient data" result exists in the sketch.
\<close>

theorem showResults_divides_by_zero_cap:
  "readIntFromEEPROM zeroed 200 = 0
   \<and> screen (run EEPROM_write (setup_ino zeroed) (map Key ''11101*2''))
       = Halted IntegerDivideByZero"
  by code_simp

text \<open>
  C6. After a reset and one vote for the second candidate the stored count of slot 1 (the
  16-bit value at 302) is 1, but the power-on code loads \<^verbatim>\<open>votes[1]\<close> from the single
  byte at 301 and gets 0.
\<close>

theorem setup_loads_votes_from_single_bytes:
  "readIntFromEEPROM (eeprom (run EEPROM_write (setup_ino zeroed) one_vote_keys)) (300 + 2 * 1) = 1
   \<and> votes (run EEPROM_write (setup_ino zeroed) one_vote_keys) ! 1 = 0"
  by code_simp

section \<open>The cap invariant along runs\<close>

lemma all_votes_count_nonneg: "0 \<le> all_votes_count m"
  using readIntFromEEPROM_range [of m 300] readIntFromEEPROM_range [of m 302]
    readIntFromEEPROM_range [of m 304] readIntFromEEPROM_range [of m 306]
    readIntFromEEPROM_range [of m 308] readIntFromEEPROM_range [of m 310]
  by (simp add: all_votes_count_sum)

lemma read_byte_write_other:
  assumes "a \<noteq> b" "a \<noteq> b + 1"
  shows "readIntFromEEPROM (EEPROM_write a v m) b = readIntFromEEPROM m b"
  using assms by (simp add: readIntFromEEPROM_def EEPROM_read_def EEPROM_write_def)

lemma within_cap_flag_write:
  assumes "a < 200"
  shows "within_cap (EEPROM_write a v m) = within_cap m"
  using assms by (simp add: within_cap_def all_votes_count_sum read_byte_write_other)

lemma within_cap_cap_write:
  assumes "1 \<le> v" "v \<le> 65535" "all_votes_count m \<le> v"
  shows "within_cap (writeIntToEEPROM EEPROM_write 200 v m)"
proof -
  have "all_votes_count (writeIntToEEPROM EEPROM_write 200 v m) = all_votes_count m"
    by (simp add: all_votes_count_sum read_write_other)
  moreover have "readIntFromEEPROM (writeIntToEEPROM EEPROM_write 200 v m) 200 = v"
    using assms by (simp add: read_write_same EEPROM_SIZE_def)
  ultimately show ?thesis using assms all_votes_count_nonneg [of m] by (simp add: within_cap_def)
qed

lemma within_cap_vote_write:
  assumes "i < 6" "within_cap m" "all_votes_count m < readIntFromEEPROM m 200"
  shows "within_cap (writeIntToEEPROM EEPROM_write (300 + i * 2)
           (readIntFromEEPROM m (300 + i * 2) + 1) m)"
proof -
  have "readIntFromEEPROM m (300 + i * 2) \<le> all_votes_count m"
    using assms(1) by (rule count_le_all_votes_count)
  moreover have "readIntFromEEPROM m 200 \<le> 65535" "0 \<le> readIntFromEEPROM m (300 + i * 2)"
    using readIntFromEEPROM_range by blast+
  ultimately have r: "0 \<le> readIntFromEEPROM m (300 + i * 2) + 1"
    "readIntFromEEPROM m (300 + i * 2) + 1 \<le> 65535"
    using assms(3) by linarith+
  have "all_votes_count (writeIntToEEPROM EEPROM_write (300 + i * 2)
           (readIntFromEEPROM m (300 + i * 2) + 1) m) = all_votes_count m + 1"
    using all_votes_count_write [OF assms(1) r] by simp
  moreover have "readIntFromEEPROM (writeIntToEEPROM EEPROM_write (300 + i * 2)
           (readIntFromEEPROM m (300 + i * 2) + 1) m) 200 = readIntFromEEPROM m 200"
    using assms(1) by (simp add: read_write_other)
  ultimately show ?thesis using assms(2,3) by (simp add: within_cap_def)
qed

lemma within_cap_resetEEPROM: "within_cap (eeprom (resetEEPROM EEPROM_write st))"
proof -
  have z: "(0::int) \<le> 65535" "(0::int) \<le> 0" "(0::int) \<le> 100" "(100::int) \<le> 65535" by simp_all
  show ?thesis
    by (simp add: resetEEPROM_def upt_6 Let_def showAdminMenu_def push_def say_def
        within_cap_def all_votes_count_sum default_maxVoters_def
        read_write_other read_write_same read_byte_write_other EEPROM_SIZE_def)
qed

lemma eeprom_setup_ino: "eeprom (setup_ino m) = m"
  by (simp add: setup_ino_def upt_6 Let_def showResetMenu_def say_def)

lemma eeprom_enter:
  "eeprom (showResetMenu st) = eeprom st"
  "eeprom (showPasswordBox cb st) = eeprom st"
  "eeprom (showAdminMenu st) = eeprom st"
  "eeprom (enableCandidates st) = eeprom st"
  "eeprom (showVotingMenu st) = eeprom st"
  "eeprom (setMaxVoters st) = eeprom st"
  "eeprom (showGraph y st) = eeprom st"
  "eeprom (return_from st) = eeprom st"
  "eeprom (push f st) = eeprom st"
  "eeprom (say xs st) = eeprom st"
  by (simp_all add: showResetMenu_def showPasswordBox_def showAdminMenu_def
      enableCandidates_def showVotingMenu_def setMaxVoters_def showGraph_def return_from_def
      push_def say_def Let_def split: list.split)

lemma eeprom_showResults: "eeprom (showResults st) = eeprom st"
  by (simp add: showResults_def Let_def say_def split: sum.split)


lemma within_cap_invoke:
  "within_cap (eeprom st) \<Longrightarrow> within_cap (eeprom (invoke EEPROM_write cb st))"
  by (cases cb) (simp_all add: invoke_def eeprom_enter within_cap_resetEEPROM)

lemma step_within_cap:
  assumes inv: "within_cap (eeprom st)" and ok: "cap_not_below_votes st e"
  shows "within_cap (eeprom (step EEPROM_write st e))"
proof (cases e)
  case PowerOn
  with inv show ?thesis by (simp add: step_def eeprom_setup_ino)
next
  case (Key key)
  show ?thesis
  proof (cases "screen st")
    case In_loop
    with Key inv show ?thesis by (simp add: step_def loop_key_def eeprom_enter)
  next
    case In_showResetMenu
    with Key inv show ?thesis by (simp add: step_def showResetMenu_key_def eeprom_enter)
  next
    case (In_showPasswordBox cb buf)
    with Key inv show ?thesis
      by (simp add: step_def showPasswordBox_key_def eeprom_enter within_cap_invoke)
  next
    case In_showAdminMenu
    with Key inv show ?thesis
      by (simp add: step_def showAdminMenu_key_def eeprom_enter eeprom_showResults)
  next
    case In_enableCandidates
    show ?thesis
    proof (cases "CHR ''1'' \<le> key \<and> key \<le> CHR ''6''")
      case True
      then have "of_char key - of_char CHR ''1'' < (6::nat)"
        by (auto simp: less_eq_char_def)
      then have "100 + (of_char key - of_char CHR ''1'') < (200::nat)" by simp
      with In_enableCandidates Key inv True show ?thesis
        by (simp add: step_def enableCandidates_key_def eeprom_enter Let_def
            within_cap_flag_write)
    next
      case False
      with In_enableCandidates Key inv show ?thesis
        by (auto simp: step_def enableCandidates_key_def eeprom_enter)
    qed
  next
    case In_showResults
    with Key inv show ?thesis by (simp add: step_def showResults_key_def eeprom_enter)
  next
    case In_showGraph
    with Key inv show ?thesis
      by (simp add: step_def showGraph_key_def eeprom_enter eeprom_showResults)
  next
    case (In_setMaxVoters tempMaxVoters)
    show ?thesis
    proof (cases "key = CHR ''#''")
      case True
      define mv where "mv = (if tempMaxVoters \<ge> 1 \<and> tempMaxVoters \<le> 65535
                             then tempMaxVoters else 65535)"
      have "1 \<le> mv" "mv \<le> 65535" by (simp_all add: mv_def)
      moreover from ok Key In_setMaxVoters True have "all_votes_count (eeprom st) \<le> mv"
        by (simp add: cap_not_below_votes_def mv_def)
      ultimately have "within_cap (writeIntToEEPROM EEPROM_write 200 mv (eeprom st))"
        by (rule within_cap_cap_write)
      with Key In_setMaxVoters True show ?thesis
        by (simp add: step_def setMaxVoters_key_def eeprom_enter Let_def mv_def
            less_eq_char_def)
    next
      case False
      with Key In_setMaxVoters inv show ?thesis
        by (simp add: step_def setMaxVoters_key_def eeprom_enter Let_def)
    qed
  next
    case (In_showVotingMenu inputLocked)
    show ?thesis
    proof (cases "CHR ''1'' \<le> key \<and> key \<le> CHR ''6'' \<and> \<not> inputLocked
        \<and> enabledCandidates st ! (of_char key - of_char CHR ''1'')
        \<and> all_votes_count (eeprom st) < readIntFromEEPROM (eeprom st) 200")
      case True
      then have "of_char key - of_char CHR ''1'' < (6::nat)"
        by (auto simp: less_eq_char_def)
      then have "within_cap (writeIntToEEPROM EEPROM_write
          (300 + (of_char key - of_char CHR ''1'') * 2)
          (readIntFromEEPROM (eeprom st) (300 + (of_char key - of_char CHR ''1'') * 2) + 1)
          (eeprom st))"
        using inv True by (intro within_cap_vote_write) simp_all
      then show ?thesis
        unfolding Key step_eeprom_in_booth [OF In_showVotingMenu] if_P [OF True] .
    next
      case False
      from inv show ?thesis
        unfolding Key step_eeprom_in_booth [OF In_showVotingMenu] if_not_P [OF False] .
    qed
  next
    case (Halted t)
    with Key inv show ?thesis by (simp add: step_def)
  qed
qed

lemma caps_not_below_votes_take:
  "caps_not_below_votes st es \<Longrightarrow> caps_not_below_votes st (take n es)"
proof (induction es arbitrary: st n)
  case Nil
  then show ?case by simp
next
  case (Cons e es)
  then show ?case by (cases n) simp_all
qed

lemma run_within_cap:
  "within_cap (eeprom st) \<Longrightarrow> caps_not_below_votes st es
   \<Longrightarrow> within_cap (eeprom (run EEPROM_write st es))"
  by (induction es arbitrary: st) (simp_all add: step_within_cap)

text \<open>
  C1, as the code has it. From any state whose stored data satisfy
  \<open>0 \<le> totalVotesCast \<le> maxVoters\<close>, after every prefix of any sequence of keys and
  power-ons in which each commit of \<^verbatim>\<open>setMaxVoters\<close> stores a cap not below the votes
  already stored, the stored data satisfy it again (on the working EEPROM).
\<close>

theorem votes_within_cap_unless_cap_lowered:
  assumes "within_cap (eeprom st)" and "caps_not_below_votes st es"
  shows "within_cap (eeprom (run EEPROM_write st (take n es)))"
  using assms by (intro run_within_cap caps_not_below_votes_take)

theorem votes_within_cap_unless_cap_lowered_witness:
  "within_cap (eeprom (setup_ino zeroed))
   \<and> caps_not_below_votes (setup_ino zeroed) cap_raised_keys
   \<and> within_cap (eeprom (run EEPROM_write (setup_ino zeroed) (take 32 cap_raised_keys)))
   \<and> all_votes_count (eeprom (run EEPROM_write (setup_ino zeroed) cap_raised_keys)) = 2
   \<and> readIntFromEEPROM (eeprom (run EEPROM_write (setup_ino zeroed) cap_raised_keys)) 200 = 5"
proof -
  have h1: "within_cap (eeprom (setup_ino zeroed))" by code_simp
  have h2: "caps_not_below_votes (setup_ino zeroed) cap_raised_keys" by code_simp
  have v: "all_votes_count (eeprom (run EEPROM_write (setup_ino zeroed) cap_raised_keys)) = 2"
    "readIntFromEEPROM (eeprom (run EEPROM_write (setup_ino zeroed) cap_raised_keys)) 200 = 5"
    by code_simp+
  note c = votes_within_cap_unless_cap_lowered [OF h1 h2, of 32]
  show ?thesis using h1 h2 c v by blast
qed

text \<open>
  C1, as stated, fails: from the zeroed EEPROM, which satisfies the invariant, the keys
  \<open>cap_lowered_keys\<close> reset the machine, cast two votes and then commit the cap 1 in
  \<^verbatim>\<open>setMaxVoters\<close>, which stores it without looking at the votes: 2 votes, cap 1.
\<close>

theorem cap_lowered_below_votes:
  "within_cap (eeprom (setup_ino zeroed))
   \<and> \<not> within_cap (eeprom (run EEPROM_write (setup_ino zeroed) cap_lowered_keys))"
  by code_simp

end
